theory Spec2Isabelle
  imports Main "HOL-Library.Word"
begin

section \<open>Data model of file_directory.go\<close>

text \<open>
  Go strings are byte sequences, so they are \<open>string\<close> here; \<open>int64\<close> is \<open>64 word\<close>
  read through \<open>sint\<close>; a pointer that may be nil is an \<open>option\<close>.
  Record fields are global names in HOL, so the fields of \<open>fileEntityResult\<close> carry the
  prefix \<open>r_\<close>, and the fields of the other structs that share a name with a field of
  \<open>FileEntity\<close> carry a prefix as well.
\<close>

record FileEntity =
  DriveId :: string
  DomainId :: string
  FileId :: string
  FileName :: string
  FileSize :: "64 word"
  FileType :: string
  CreatedAt :: string
  UpdatedAt :: string
  FileExtension :: string
  UploadId :: string
  ParentFileId :: string
  Crc64Hash :: string
  ContentHash :: string
  ContentHashName :: string
  Path :: string
  Category :: string
  SyncFlag :: bool
  SyncMeta :: string

text \<open>\<open>FileList\<close> is \<open>[]*FileEntity\<close>: a slice of pointers, each of which may be nil.\<close>

type_synonym FileList = "FileEntity option list"

record fileEntityResult =
  r_DriveId :: string
  r_DomainId :: string
  r_FileId :: string
  r_Name :: string
  r_Type :: string
  r_ContentType :: string
  r_CreatedAt :: string
  r_UpdatedAt :: string
  r_FileExtension :: string
  r_MimeType :: string
  r_MimeExtension :: string
  r_Hidden :: bool
  r_Size :: "64 word"
  r_Starred :: bool
  r_Status :: string
  r_UploadId :: string
  r_ParentFileId :: string
  r_Crc64Hash :: string
  r_ContentHash :: string
  r_ContentHashName :: string
  r_DownloadUrl :: string
  r_Url :: string
  r_Category :: string
  r_EncryptMode :: string
  r_PunishFlag :: int
  r_SyncFlag :: bool
  r_SyncMeta :: string

record fileListResult =
  Items :: "fileEntityResult option list"
  r_NextMarker :: string

record FileListParam =
  OrderBy :: string
  OrderDirection :: string
  p_DriveId :: string
  p_ParentFileId :: string
  Limit :: int
  Marker :: string

record FileListResult =
  res_FileList :: FileList
  NextMarker :: string

definition DefaultRootParentFileId :: string where
  "DefaultRootParentFileId = ''root''"

definition FileOrderByUpdatedAt :: string where
  "FileOrderByUpdatedAt = ''updated_at''"

definition FileOrderDirectionDesc :: string where
  "FileOrderDirectionDesc = ''DESC''"

text \<open>The zero value of the struct, which a Go composite literal leaves in every field
  it does not name.\<close>

definition zeroFileEntity :: FileEntity where
  "zeroFileEntity =
     \<lparr>DriveId = [], DomainId = [], FileId = [], FileName = [], FileSize = 0,
      FileType = [], CreatedAt = [], UpdatedAt = [], FileExtension = [], UploadId = [],
      ParentFileId = [], Crc64Hash = [], ContentHash = [], ContentHashName = [],
      Path = [], Category = [], SyncFlag = False, SyncMeta = []\<rparr>"

definition NewFileEntityForRootDir :: FileEntity where
  "NewFileEntityForRootDir =
     zeroFileEntity\<lparr>FileId := DefaultRootParentFileId, FileType := ''folder'',
       FileName := ''/'', ParentFileId := [], Path := ''/''\<rparr>"

definition IsFolder :: "FileEntity \<Rightarrow> bool" where
  "IsFolder f \<longleftrightarrow> FileType f = ''folder''"

definition IsFile :: "FileEntity \<Rightarrow> bool" where
  "IsFile f \<longleftrightarrow> FileType f = ''file''"

definition IsDriveRootFolder :: "FileEntity \<Rightarrow> bool" where
  "IsDriveRootFolder f \<longleftrightarrow> FileId f = DefaultRootParentFileId"

subsection \<open>Aggregates over a FileList\<close>

text \<open>The loop of \<open>TotalSize\<close>, with the running \<open>size\<close> (here \<open>sz\<close>) as accumulator; \<open>+\<close> on
  \<open>64 word\<close> wraps as Go's \<open>int64\<close> addition does.\<close>

fun TotalSize_loop :: "64 word \<Rightarrow> FileList \<Rightarrow> 64 word" where
  "TotalSize_loop sz [] = sz"
| "TotalSize_loop sz (None # fl) = TotalSize_loop sz fl"
| "TotalSize_loop sz (Some f # fl) = TotalSize_loop (sz + FileSize f) fl"

definition TotalSize :: "FileList \<Rightarrow> 64 word" where
  "TotalSize fl = TotalSize_loop 0 fl"

text \<open>The loop of \<open>Count\<close>, with the two named results as accumulators.\<close>

fun Count_loop :: "64 word \<times> 64 word \<Rightarrow> FileList \<Rightarrow> 64 word \<times> 64 word" where
  "Count_loop (fileN, directoryN) [] = (fileN, directoryN)"
| "Count_loop (fileN, directoryN) (None # fl) = Count_loop (fileN, directoryN) fl"
| "Count_loop (fileN, directoryN) (Some f # fl) =
     (if IsFolder f then Count_loop (fileN, directoryN + 1) fl
      else Count_loop (fileN + 1, directoryN) fl)"

definition Count :: "FileList \<Rightarrow> 64 word \<times> 64 word" where
  "Count fl = Count_loop (0, 0) fl"

text \<open>What the two aggregates are compared with: the size an entry contributes, and the
  entries of each kind.\<close>

definition sizeOf :: "FileEntity option \<Rightarrow> 64 word" where
  "sizeOf x = (case x of None \<Rightarrow> 0 | Some f \<Rightarrow> FileSize f)"

definition isDirectoryEntry :: "FileEntity option \<Rightarrow> bool" where
  "isDirectoryEntry x = (case x of None \<Rightarrow> False | Some f \<Rightarrow> FileType f = ''folder'')"

definition isFileEntry :: "FileEntity option \<Rightarrow> bool" where
  "isFileEntry x = (case x of None \<Rightarrow> False | Some f \<Rightarrow> FileType f \<noteq> ''folder'')"

definition nonNil :: "FileList \<Rightarrow> FileList" where
  "nonNil fl = filter (\<lambda>x. x \<noteq> None) fl"

section \<open>Errors and the collaborators outside this file\<close>

text \<open>
  Modelled from the spec: \<open>apierror\<close> is another package of the repository.
  An \<open>ApiError\<close> is a code with a message; \<open>NewFailedApiError\<close> builds the generic
  failure and \<open>ApiCodeFileNotFoundCode\<close> is the code of "not found". Every other code a
  server envelope may carry is \<open>ApiCodeOther\<close>.
\<close>

datatype ApiCode = ApiCodeFailed | ApiCodeFileNotFoundCode | ApiCodeOther int

datatype ApiError = ApiError ApiCode string

text \<open>Modelled from the spec: the two constructors of \<open>apierror\<close> this file calls.\<close>

definition NewApiError :: "ApiCode \<Rightarrow> string \<Rightarrow> ApiError" where
  "NewApiError c m = ApiError c m"

definition NewFailedApiError :: "string \<Rightarrow> ApiError" where
  "NewFailedApiError m = NewApiError ApiCodeFailed m"

text \<open>The two messages of this file, as the UTF-8 bytes of the Go string literals.\<close>

definition msgNotAbsolute :: string where
  "msgNotAbsolute = ''pathStr'' @ map char_of
     [229, 191, 133, 233, 161, 187, 230, 152, 175, 231, 187, 157, 229, 175, 185,
      232, 183, 175, 229, 190, 132 :: nat]"

definition msgNotFound :: string where
  "msgNotFound = map char_of
     [230, 150, 135, 228, 187, 182, 228, 184, 141, 229, 173, 152, 229, 156, 168 :: nat]"

text \<open>Modelled from the spec: \<open>PathSeparator\<close> is declared elsewhere in the package; paths
  are slash-separated.\<close>

definition PathSeparator :: string where
  "PathSeparator = ''/''"

text \<open>
  The JSON body a listing request posts. The entries \<open>all\<close>, \<open>url_expire_sec\<close>, the three
  \<open>*_process\<close> entries and \<open>fields\<close> are the same constants in every request, as are the
  method, the URL and the headers: they are left out. \<open>marker\<close> is present only when the
  parameter's marker is not empty.
\<close>

record postData =
  drive_id :: string
  parent_file_id :: string
  limit :: int
  order_by :: string
  order_direction :: string
  marker :: "string option"

text \<open>
  What \<open>fileListReq\<close> and \<open>createFileEntity\<close> call outside this file, taken as parameters:
  \<open>client.Fetch\<close> (\<open>Inl\<close> carries \<open>err.Error()\<close>, \<open>Inr\<close> the body),
  \<open>apierror.ParseCommonApiError\<close>, \<open>json.Unmarshal\<close> into a \<open>fileListResult\<close>
  (\<open>Inl\<close> carries \<open>err2.Error()\<close>) and \<open>apiutil.UtcTime2LocalFormat\<close>.
\<close>

record transport =
  Fetch :: "postData \<Rightarrow> string + string"
  ParseCommonApiError :: "string \<Rightarrow> ApiError option"
  Unmarshal :: "string \<Rightarrow> string + fileListResult"
  UtcTime2LocalFormat :: "string \<Rightarrow> string"

text \<open>
  One invocation of a \<open>HandleFileDirectoryFunc\<close>: depth, path, entity or nil, error or nil.
  The callback is a closure; its answer may depend on the invocations it has seen before,
  which are its first argument here.
\<close>

type_synonym visit = "int \<times> string \<times> FileEntity option \<times> ApiError option"

type_synonym HandleFileDirectoryFunc = "visit list \<Rightarrow> visit \<Rightarrow> bool"

text \<open>What a run leaves behind: the listing requests sent and the callback invocations
  made, both in order.\<close>

record world =
  requests :: "postData list"
  visits :: "visit list"

text \<open>A run that does not return: the fuel of a loop or of the recursion is used up, or a
  nil pointer is dereferenced or a slice read out of range.\<close>

datatype halt = OutOfFuel | Panic

section \<open>Standard library functions used by the file\<close>

text \<open>\<open>strings.Split\<close> and \<open>strings.ReplaceAll\<close> for a separator that is not empty:
  matches are taken from the left and do not overlap.\<close>

function strings_Split :: "string \<Rightarrow> string \<Rightarrow> string list" where
  "strings_Split [] sep = [[]]"
| "strings_Split (c # cs) sep =
     (if sep \<noteq> [] \<and> take (length sep) (c # cs) = sep
      then [] # strings_Split (drop (length sep) (c # cs)) sep
      else (case strings_Split cs sep of
              [] \<Rightarrow> [[c]]
            | x # xs \<Rightarrow> (c # x) # xs))"
  by pat_completeness auto
termination
  by (relation "measure (\<lambda>(s, sep). length s)") (auto simp: neq_Nil_conv)

function strings_ReplaceAll :: "string \<Rightarrow> string \<Rightarrow> string \<Rightarrow> string" where
  "strings_ReplaceAll [] old new = []"
| "strings_ReplaceAll (c # cs) old new =
     (if old \<noteq> [] \<and> take (length old) (c # cs) = old
      then new @ strings_ReplaceAll (drop (length old) (c # cs)) old new
      else c # strings_ReplaceAll cs old new)"
  by pat_completeness auto
termination
  by (relation "measure (\<lambda>(s, old, new). length s)") (auto simp: neq_Nil_conv)

definition strings_Join :: "string list \<Rightarrow> string \<Rightarrow> string" where
  "strings_Join xs sep = (case xs of [] \<Rightarrow> [] | y # ys \<Rightarrow> y @ concat (map (\<lambda>z. sep @ z) ys))"

definition path_IsAbs :: "string \<Rightarrow> bool" where
  "path_IsAbs p \<longleftrightarrow> length p > 0 \<and> p ! 0 = CHR ''/''"

text \<open>
  \<open>path.Clean\<close>, from the rules of its documentation, on the elements between slashes:
  empty elements and \<open>.\<close> are dropped, \<open>..\<close> removes the element before it, \<open>..\<close> at the
  start of a rooted path is dropped and at the start of a relative path is kept, and the
  empty result is \<open>.\<close>. \<open>st\<close> holds the elements kept so far, last first.
\<close>

definition clean_step :: "bool \<Rightarrow> string list \<Rightarrow> string \<Rightarrow> string list" where
  "clean_step rooted st c =
     (if c = [] \<or> c = ''.'' then st
      else if c = ''..'' then
        (case st of
           [] \<Rightarrow> (if rooted then [] else [''..''])
         | e # rest \<Rightarrow> (if e = ''..'' then ''..'' # st else rest))
      else c # st)"

definition path_Clean :: "string \<Rightarrow> string" where
  "path_Clean p =
     (if p = [] then ''.''
      else
        (let rooted = (p ! 0 = CHR ''/'');
             body = strings_Join (rev (foldl (clean_step rooted) [] (strings_Split p ''/''))) ''/''
         in if rooted then ''/'' @ body
            else if body = [] then ''.'' else body))"

section \<open>The paginated lister\<close>

definition createFileEntity :: "transport \<Rightarrow> fileEntityResult option \<Rightarrow> FileEntity option" where
  "createFileEntity t f =
     (case f of
        None \<Rightarrow> None
      | Some f \<Rightarrow> Some
          \<lparr>DriveId = r_DriveId f, DomainId = r_DomainId f, FileId = r_FileId f,
           FileName = r_Name f, FileSize = r_Size f, FileType = r_Type f,
           CreatedAt = UtcTime2LocalFormat t (r_CreatedAt f),
           UpdatedAt = UtcTime2LocalFormat t (r_UpdatedAt f),
           FileExtension = r_FileExtension f, UploadId = r_UploadId f,
           ParentFileId = r_ParentFileId f, Crc64Hash = r_Crc64Hash f,
           ContentHash = r_ContentHash f, ContentHashName = r_ContentHashName f,
           Path = r_Name f, Category = r_Category f, SyncFlag = r_SyncFlag f,
           SyncMeta = r_SyncMeta f\<rparr>)"

text \<open>
  \<open>fileListReq\<close> returns either an error or a result, never both and never neither, so
  its pair is a sum here. It writes the defaults of \<open>OrderBy\<close> and \<open>OrderDirection\<close> into the
  parameter it was given a pointer to: the parameter comes back as the second component.
\<close>

definition fileListReq ::
  "transport \<Rightarrow> FileListParam \<Rightarrow> world \<Rightarrow> (ApiError + fileListResult) \<times> FileListParam \<times> world" where
  "fileListReq t param w =
     (let pFileId = (if p_ParentFileId param = [] then DefaultRootParentFileId
                     else p_ParentFileId param);
          lim = (if Limit param \<le> 0 then 100 else Limit param);
          param = (if OrderBy param = [] then param\<lparr>OrderBy := FileOrderByUpdatedAt\<rparr>
                   else param);
          param = (if OrderDirection param = []
                   then param\<lparr>OrderDirection := FileOrderDirectionDesc\<rparr> else param);
          pd = \<lparr>drive_id = p_DriveId param, parent_file_id = pFileId, limit = lim,
                order_by = OrderBy param, order_direction = OrderDirection param,
                marker = (if length (Marker param) > 0 then Some (Marker param) else None)\<rparr>;
          w = w\<lparr>requests := requests w @ [pd]\<rparr>
      in case Fetch t pd of
           Inl err \<Rightarrow> (Inl (NewFailedApiError err), param, w)
         | Inr body \<Rightarrow>
             (case ParseCommonApiError t body of
                Some err1 \<Rightarrow> (Inl err1, param, w)
              | None \<Rightarrow>
                  (case Unmarshal t body of
                     Inl err2 \<Rightarrow> (Inl (NewFailedApiError err2), param, w)
                   | Inr r \<Rightarrow> (Inr r, param, w))))"

text \<open>The loop of \<open>FileList\<close> over \<open>flr.Items\<close>, appending to \<open>result.FileList\<close>.\<close>

fun appendItems :: "transport \<Rightarrow> FileList \<Rightarrow> fileEntityResult option list \<Rightarrow> FileList" where
  "appendItems t acc [] = acc"
| "appendItems t acc (None # items) = appendItems t acc items"
| "appendItems t acc (Some f # items) =
     appendItems t (acc @ [createFileEntity t (Some f)]) items"

text \<open>\<open>FileList\<close> returns a pair of two pointers; callers test both, so both are kept.\<close>

definition FileList ::
  "transport \<Rightarrow> FileListParam \<Rightarrow> world
     \<Rightarrow> (FileListResult option \<times> ApiError option) \<times> FileListParam \<times> world" where
  "FileList t param w =
     (let result = \<lparr>res_FileList = [], NextMarker = []\<rparr>
      in case fileListReq t param w of
           (Inr flr, param, w) \<Rightarrow>
             ((Some (result\<lparr>res_FileList := appendItems t (res_FileList result) (Items flr),
                            NextMarker := r_NextMarker flr\<rparr>), None), param, w)
         | (Inl err, param, w) \<Rightarrow> ((Some result, None), param, w))"

text \<open>The "more page?" loop of \<open>FileListGetAll\<close>. Nothing in the code bounds the number of
  pages, so the loop takes fuel: one unit for each further page.\<close>

fun morePages ::
  "nat \<Rightarrow> transport \<Rightarrow> FileListParam \<Rightarrow> FileListResult \<Rightarrow> FileList \<Rightarrow> world
     \<Rightarrow> halt + (FileList \<times> world)" where
  "morePages 0 t internalParam result fileList w =
     (if length (NextMarker result) > 0 then Inl OutOfFuel else Inr (fileList, w))"
| "morePages (Suc n) t internalParam result fileList w =
     (if length (NextMarker result) > 0 then
        (case FileList t (internalParam\<lparr>Marker := NextMarker result\<rparr>) w of
           ((Some result', None), internalParam', w') \<Rightarrow>
             morePages n t internalParam' result' (fileList @ res_FileList result') w'
         | ((_, _), internalParam', w') \<Rightarrow> Inr (fileList, w'))
      else Inr (fileList, w))"

definition FileListGetAll ::
  "nat \<Rightarrow> transport \<Rightarrow> FileListParam \<Rightarrow> world
     \<Rightarrow> halt + ((FileList option \<times> ApiError option) \<times> world)" where
  "FileListGetAll n t param w =
     (let internalParam = \<lparr>OrderBy = OrderBy param, OrderDirection = OrderDirection param,
                            p_DriveId = p_DriveId param, p_ParentFileId = p_ParentFileId param,
                            Limit = Limit param, Marker = Marker param\<rparr>;
          internalParam = (if Limit internalParam \<le> 0 then internalParam\<lparr>Limit := 100\<rparr>
                           else internalParam);
          fileList = []
      in case FileList t internalParam w of
           ((Some result, None), internalParam, w) \<Rightarrow>
             (case morePages n t internalParam result (fileList @ res_FileList result) w of
                Inl h \<Rightarrow> Inl h
              | Inr (fileList, w) \<Rightarrow> Inr ((Some fileList, None), w))
         | ((_, err), internalParam, w) \<Rightarrow> Inr ((None, err), w))"

section \<open>The path resolver\<close>

text \<open>The scan of \<open>getFileInfoByPath\<close> over the listing: the first entry with the name
  sought; reading the name of a nil entry panics.\<close>

fun firstNamed :: "FileList \<Rightarrow> string \<Rightarrow> halt + FileEntity option" where
  "firstNamed [] name = Inr None"
| "firstNamed (None # fileResult) name = Inl Panic"
| "firstNamed (Some fileEntity # fileResult) name =
     (if FileName fileEntity = name then Inr (Some fileEntity)
      else firstNamed fileResult name)"

text \<open>\<open>index\<close> starts at 0 and only grows, so it is a \<open>nat\<close>; it is below the length of
  \<open>pathSlice\<close> wherever the slice is read.\<close>

function getFileInfoByPath ::
  "nat \<Rightarrow> transport \<Rightarrow> string \<Rightarrow> nat \<Rightarrow> string list \<Rightarrow> FileEntity option \<Rightarrow> world
     \<Rightarrow> halt + ((FileEntity option \<times> ApiError option) \<times> world)" where
  "getFileInfoByPath n t driveId index pathSlice None w =
     (if index = 0 \<and> length pathSlice = 1 then Inr ((Some NewFileEntityForRootDir, None), w)
      else getFileInfoByPath n t driveId (index + 1) pathSlice (Some NewFileEntityForRootDir) w)"
| "getFileInfoByPath n t driveId index pathSlice (Some parentFileInfo) w =
     (if index \<ge> length pathSlice then Inr ((Some parentFileInfo, None), w)
      else
        (case FileListGetAll n t
                \<lparr>OrderBy = [], OrderDirection = [], p_DriveId = driveId,
                 p_ParentFileId = FileId parentFileInfo, Limit = 0, Marker = []\<rparr> w of
           Inl h \<Rightarrow> Inl h
         | Inr ((fileResult, Some err), w) \<Rightarrow> Inr ((None, Some err), w)
         | Inr ((None, None), w) \<Rightarrow>
             Inr ((None, Some (NewApiError ApiCodeFileNotFoundCode msgNotFound)), w)
         | Inr ((Some fileResult, None), w) \<Rightarrow>
             (if length fileResult = 0
              then Inr ((None, Some (NewApiError ApiCodeFileNotFoundCode msgNotFound)), w)
              else
                (case firstNamed fileResult (pathSlice ! index) of
                   Inl h \<Rightarrow> Inl h
                 | Inr (Some fileEntity) \<Rightarrow>
                     getFileInfoByPath n t driveId (index + 1) pathSlice (Some fileEntity) w
                 | Inr None \<Rightarrow>
                     Inr ((None, Some (NewApiError ApiCodeFileNotFoundCode msgNotFound)), w)))))"
  by pat_completeness auto
termination
  by (relation "measure (\<lambda>(n, t, driveId, index, pathSlice, parentFileInfo, w).
        2 * (length pathSlice - index) + (if parentFileInfo = None then 1 else 0))") auto

text \<open>The last lines of \<open>FileInfoByPath\<close>, which both ways of building \<open>pathSlice\<close>
  reach: the descent from the root, and the path written into the entity found.\<close>

definition resolveSlice ::
  "nat \<Rightarrow> transport \<Rightarrow> string \<Rightarrow> string \<Rightarrow> string list \<Rightarrow> world
     \<Rightarrow> halt + ((FileEntity option \<times> ApiError option) \<times> world)" where
  "resolveSlice n t driveId pathStr pathSlice w =
     (case getFileInfoByPath n t driveId 0 pathSlice None w of
        Inl h \<Rightarrow> Inl h
      | Inr ((fileInfo, error), w) \<Rightarrow>
          Inr ((map_option (\<lambda>f. f\<lparr>Path := pathStr\<rparr>) fileInfo, error), w))"

definition FileInfoByPath ::
  "nat \<Rightarrow> transport \<Rightarrow> string \<Rightarrow> string \<Rightarrow> world
     \<Rightarrow> halt + ((FileEntity option \<times> ApiError option) \<times> world)" where
  "FileInfoByPath n t driveId pathStr w =
     (let pathStr = (if pathStr = [] then ''/'' else pathStr)
      in if \<not> path_IsAbs pathStr then Inr ((None, Some (NewFailedApiError msgNotAbsolute)), w)
         else
           (let pathStr = (if length pathStr > 1 then path_Clean pathStr else pathStr)
            in if pathStr = ''/'' then resolveSlice n t driveId pathStr [[]] w
               else
                 (case strings_Split pathStr PathSeparator of
                    [] \<Rightarrow> Inl Panic
                  | first # rest \<Rightarrow>
                      (if first \<noteq> []
                       then Inr ((None, Some (NewFailedApiError msgNotAbsolute)), w)
                       else resolveSlice n t driveId pathStr (first # rest) w))))"

section \<open>The tree walker\<close>

text \<open>
  A call site of the callback: under \<open>if handleFileDirectoryFunc != nil\<close>, with \<open>ok\<close> the
  value the variable assigned to holds before. A nil callback leaves \<open>ok\<close> and the world as
  they are; otherwise the invocation is recorded and its answer returned.
\<close>

definition invoke ::
  "HandleFileDirectoryFunc option \<Rightarrow> bool \<Rightarrow> visit \<Rightarrow> world \<Rightarrow> bool \<times> world" where
  "invoke handleFileDirectoryFunc ok v w =
     (case handleFileDirectoryFunc of
        None \<Rightarrow> (ok, w)
      | Some h \<Rightarrow> (h (visits w) v, w\<lparr>visits := visits w @ [v]\<rparr>))"

text \<open>
  \<open>recurseList\<close> and its loop over the listing \<open>r\<close>. \<open>fld\<close> is the list the pointer
  argument points to; it is returned with the answer. The recursion follows what the server
  lists, which nothing bounds, so each level of depth takes one unit of fuel. In the folder
  branch the answer of the callback is assigned to \<open>ok\<close> and then the answer of the
  recursive call is assigned to \<open>ok\<close> as well.
\<close>

fun recurseList ::
  "nat \<Rightarrow> transport \<Rightarrow> string \<Rightarrow> FileEntity \<Rightarrow> int \<Rightarrow> HandleFileDirectoryFunc option
     \<Rightarrow> FileList \<Rightarrow> world \<Rightarrow> halt + (bool \<times> FileList \<times> world)"
and recurseLoop ::
  "nat \<Rightarrow> transport \<Rightarrow> string \<Rightarrow> FileEntity \<Rightarrow> int \<Rightarrow> HandleFileDirectoryFunc option
     \<Rightarrow> bool \<Rightarrow> FileList \<Rightarrow> FileList \<Rightarrow> world \<Rightarrow> halt + (bool \<times> FileList \<times> world)"
where
  "recurseList 0 t driveId folderInfo depth handleFileDirectoryFunc fld w = Inl OutOfFuel"
| "recurseList (Suc n) t driveId folderInfo depth handleFileDirectoryFunc fld w =
     (case FileListGetAll (Suc n) t
             \<lparr>OrderBy = [], OrderDirection = [], p_DriveId = driveId,
              p_ParentFileId = FileId folderInfo, Limit = 0, Marker = []\<rparr> w of
        Inl h \<Rightarrow> Inl h
      | Inr ((r, Some apiError), w) \<Rightarrow>
          Inr (False, fld,
               snd (invoke handleFileDirectoryFunc True
                      (depth, Path folderInfo, None, Some apiError) w))
      | Inr ((r, None), w) \<Rightarrow>
          recurseLoop n t driveId folderInfo depth handleFileDirectoryFunc True
            (case r of None \<Rightarrow> [] | Some r \<Rightarrow> r) fld w)"
| "recurseLoop n t driveId folderInfo depth handleFileDirectoryFunc ok [] fld w =
     Inr (True, fld, w)"
| "recurseLoop n t driveId folderInfo depth handleFileDirectoryFunc ok (None # r) fld w =
     Inl Panic"
| "recurseLoop n t driveId folderInfo depth handleFileDirectoryFunc ok (Some fi # r) fld w =
     (let fi = fi\<lparr>Path := strings_ReplaceAll
                  (Path folderInfo @ PathSeparator @ FileName fi) ''//'' ''/''\<rparr>;
          fld = fld @ [Some fi]
      in if IsFolder fi then
           (case invoke handleFileDirectoryFunc ok (depth, Path fi, Some fi, None) w of
              (ok, w) \<Rightarrow>
                (case recurseList n t driveId fi (depth + 1) handleFileDirectoryFunc fld w of
                   Inl h \<Rightarrow> Inl h
                 | Inr (ok, fld, w) \<Rightarrow>
                     (if \<not> ok then Inr (False, fld, w)
                      else recurseLoop n t driveId folderInfo depth handleFileDirectoryFunc
                             ok r fld w)))
         else
           (case invoke handleFileDirectoryFunc ok (depth, Path fi, Some fi, None) w of
              (ok, w) \<Rightarrow>
                (if \<not> ok then Inr (False, fld, w)
                 else recurseLoop n t driveId folderInfo depth handleFileDirectoryFunc
                        ok r fld w)))"

text \<open>The result is a \<open>FileList\<close> that may be nil: \<open>None\<close> is the nil slice.\<close>

definition FilesDirectoriesRecurseList ::
  "nat \<Rightarrow> transport \<Rightarrow> string \<Rightarrow> string \<Rightarrow> HandleFileDirectoryFunc option \<Rightarrow> world
     \<Rightarrow> halt + (FileList option \<times> world)" where
  "FilesDirectoriesRecurseList n t driveId path handleFileDirectoryFunc w =
     (case FileInfoByPath n t driveId path w of
        Inl h \<Rightarrow> Inl h
      | Inr ((targetFileInfo, Some er), w) \<Rightarrow>
          Inr (None, snd (invoke handleFileDirectoryFunc True (0, path, None, Some er) w))
      | Inr ((None, None), w) \<Rightarrow> Inl Panic
      | Inr ((Some targetFileInfo, None), w) \<Rightarrow>
          (if IsFolder targetFileInfo then
             (let w = snd (invoke handleFileDirectoryFunc True
                             (0, path, Some targetFileInfo, None) w)
              in case recurseList n t driveId targetFileInfo 1 handleFileDirectoryFunc [] w of
                   Inl h \<Rightarrow> Inl h
                 | Inr (ok, fld, w) \<Rightarrow> (if \<not> ok then Inr (None, w) else Inr (Some fld, w)))
           else
             (let w = snd (invoke handleFileDirectoryFunc True
                             (0, path, Some targetFileInfo, None) w)
              in Inr (Some [Some targetFileInfo], w))))"

section \<open>A small drive to run the code on\<close>

text \<open>
  The drive of the worked example: the root lists the folder \<open>d\<close>; \<open>d\<close> lists the folder
  \<open>A\<close> and then the file \<open>B\<close>; \<open>A\<close> lists the file \<open>x\<close>; every other folder is empty.
  The transport answers a request with the parent id as body, which \<open>Unmarshal\<close> turns into
  the listing of that folder, in one page.
\<close>

definition wireRecord :: "string \<Rightarrow> string \<Rightarrow> string \<Rightarrow> fileEntityResult" where
  "wireRecord i nm ty =
     \<lparr>r_DriveId = [], r_DomainId = [], r_FileId = i, r_Name = nm, r_Type = ty,
      r_ContentType = [], r_CreatedAt = [], r_UpdatedAt = [], r_FileExtension = [],
      r_MimeType = [], r_MimeExtension = [], r_Hidden = False, r_Size = 0,
      r_Starred = False, r_Status = [], r_UploadId = [], r_ParentFileId = [],
      r_Crc64Hash = [], r_ContentHash = [], r_ContentHashName = [], r_DownloadUrl = [],
      r_Url = [], r_Category = [], r_EncryptMode = [], r_PunishFlag = 0,
      r_SyncFlag = False, r_SyncMeta = []\<rparr>"

definition exampleListing :: "string \<Rightarrow> string + fileListResult" where
  "exampleListing body =
     (if body = ''root''
      then Inr \<lparr>Items = [Some (wireRecord ''id-d'' ''d'' ''folder'')], r_NextMarker = []\<rparr>
      else if body = ''id-d''
      then Inr \<lparr>Items = [Some (wireRecord ''id-A'' ''A'' ''folder''),
                          Some (wireRecord ''id-B'' ''B'' ''file'')], r_NextMarker = []\<rparr>
      else if body = ''id-A''
      then Inr \<lparr>Items = [Some (wireRecord ''id-x'' ''x'' ''file'')], r_NextMarker = []\<rparr>
      else Inr \<lparr>Items = [], r_NextMarker = []\<rparr>)"

definition exampleTransport :: transport where
  "exampleTransport =
     \<lparr>Fetch = (\<lambda>pd. Inr (parent_file_id pd)), ParseCommonApiError = (\<lambda>body. None),
      Unmarshal = exampleListing, UtcTime2LocalFormat = (\<lambda>s. s)\<rparr>"

text \<open>The entity the lister makes of a record of the example, and the same entity with the
  path the resolver or the walker gives it.\<close>

definition exampleEntity :: "string \<Rightarrow> string \<Rightarrow> string \<Rightarrow> FileEntity" where
  "exampleEntity i nm ty = zeroFileEntity\<lparr>FileId := i, FileName := nm, FileType := ty, Path := nm\<rparr>"

definition exampleEntityAt :: "string \<Rightarrow> string \<Rightarrow> string \<Rightarrow> string \<Rightarrow> FileEntity" where
  "exampleEntityAt i nm ty p = (exampleEntity i nm ty)\<lparr>Path := p\<rparr>"

text \<open>The listing request the code sends for a folder of a drive when the caller sets
  nothing else.\<close>

definition exampleRequest :: "string \<Rightarrow> string \<Rightarrow> postData" where
  "exampleRequest driveId parent =
     \<lparr>drive_id = driveId, parent_file_id = parent, limit = 100, order_by = ''updated_at'',
      order_direction = ''DESC'', marker = None\<rparr>"

text \<open>A transport on which every request fails in transit.\<close>

definition failingTransport :: transport where
  "failingTransport =
     \<lparr>Fetch = (\<lambda>pd. Inl ''connection refused''), ParseCommonApiError = (\<lambda>body. None),
      Unmarshal = (\<lambda>body. Inl ''unexpected end of JSON input''),
      UtcTime2LocalFormat = (\<lambda>s. s)\<rparr>"

definition emptyWorld :: world where
  "emptyWorld = \<lparr>requests = [], visits = []\<rparr>"

text \<open>Callbacks: one that always continues, and one that asks to stop on its second
  invocation only.\<close>

definition alwaysContinue :: HandleFileDirectoryFunc where
  "alwaysContinue seen v = True"

definition stopAtSecond :: HandleFileDirectoryFunc where
  "stopAtSecond seen v \<longleftrightarrow> length seen \<noteq> 1"

text \<open>One that asks to stop on its third invocation only.\<close>

definition stopAtThird :: HandleFileDirectoryFunc where
  "stopAtThird seen v \<longleftrightarrow> length seen \<noteq> 2"

text \<open>A transport whose first page holds the file \<open>B\<close> and announces a second page,
  and whose request for that second page fails in transit.\<close>

definition secondPageFails :: transport where
  "secondPageFails =
     \<lparr>Fetch = (\<lambda>pd. if marker pd = None then Inr ''page 1'' else Inl ''connection reset''),
      ParseCommonApiError = (\<lambda>body. None),
      Unmarshal = (\<lambda>body. Inr \<lparr>Items = [Some (wireRecord ''id-B'' ''B'' ''file'')],
                                  r_NextMarker = ''m2''\<rparr>),
      UtcTime2LocalFormat = (\<lambda>s. s)\<rparr>"

section \<open>The order a walk is to produce\<close>

text \<open>What a run returns, with the world left out.\<close>

definition answer :: "halt + ('a \<times> world) \<Rightarrow> halt + 'a" where
  "answer x = (case x of Inl h \<Rightarrow> Inl h | Inr (a, w) \<Rightarrow> Inr a)"

text \<open>The listing of a folder, as \<open>FileListGetAll\<close> returns it for the parameters the
  walker sets.\<close>

definition listingOf ::
  "nat \<Rightarrow> transport \<Rightarrow> string \<Rightarrow> FileEntity \<Rightarrow> halt + (FileList option \<times> ApiError option)" where
  "listingOf n t driveId folder =
     answer (FileListGetAll n t
        \<lparr>OrderBy = [], OrderDirection = [], p_DriveId = driveId,
         p_ParentFileId = FileId folder, Limit = 0, Marker = []\<rparr> emptyWorld)"

definition childPath :: "FileEntity \<Rightarrow> FileEntity \<Rightarrow> string" where
  "childPath parent child =
     strings_ReplaceAll (Path parent @ PathSeparator @ FileName child) ''//'' ''/''"

text \<open>
  The depth-first pre-order of what lies below a folder, written without accumulator,
  callback or request log: each child in listing order, with its path, followed by what lies
  below it when it is a folder. It is \<open>None\<close> when a listing does not succeed, when a
  listing holds a nil entry, or when the tree is deeper or a listing has more pages than
  \<open>n\<close> allows.
\<close>

fun preorderBelow :: "nat \<Rightarrow> transport \<Rightarrow> string \<Rightarrow> FileEntity \<Rightarrow> FileList option"
and preorderOfChildren ::
  "nat \<Rightarrow> transport \<Rightarrow> string \<Rightarrow> FileEntity \<Rightarrow> FileList \<Rightarrow> FileList option"
where
  "preorderBelow 0 t driveId folder = None"
| "preorderBelow (Suc n) t driveId folder =
     (case listingOf (Suc n) t driveId folder of
        Inr (Some r, None) \<Rightarrow> preorderOfChildren n t driveId folder r
      | _ \<Rightarrow> None)"
| "preorderOfChildren n t driveId folder [] = Some []"
| "preorderOfChildren n t driveId folder (None # r) = None"
| "preorderOfChildren n t driveId folder (Some c # r) =
     (case (if FileType c = ''folder''
            then preorderBelow n t driveId (c\<lparr>Path := childPath folder c\<rparr>)
            else Some []) of
        None \<Rightarrow> None
      | Some below \<Rightarrow>
          (case preorderOfChildren n t driveId folder r of
             None \<Rightarrow> None
           | Some others \<Rightarrow> Some (Some (c\<lparr>Path := childPath folder c\<rparr>) # below @ others)))"

text \<open>The list a walk from a resolved entity is to return: what lies below a folder, or
  the entity itself when it is not a folder.\<close>

definition preorderWalk :: "nat \<Rightarrow> transport \<Rightarrow> string \<Rightarrow> FileEntity \<Rightarrow> FileList option" where
  "preorderWalk n t driveId start =
     (if FileType start = ''folder'' then preorderBelow n t driveId start
      else Some [Some start])"

section \<open>Properties of the aggregates\<close>

lemma TotalSize_loop_sum:
  "TotalSize_loop sz fl = sz + sum_list (map sizeOf fl)"
proof (induction fl arbitrary: sz)
  case Nil
  show ?case by simp
next
  case (Cons x fl)
  show ?case
    by (cases x) (simp_all add: Cons.IH sizeOf_def add.assoc)
qed

lemma sum_list_sizeOf_nonNil:
  "sum_list (map sizeOf (nonNil fl)) = sum_list (map sizeOf fl)"
  by (induction fl) (auto simp: nonNil_def sizeOf_def)

lemma sint_sum_list:
  "sint (sum_list (ws :: 64 word list)) = signed_take_bit 63 (sum_list (map sint ws))"
proof (induction ws)
  case Nil
  show ?case by simp
next
  case (Cons a ws)
  have "sint (a + sum_list ws) = signed_take_bit 63 (sint a + sint (sum_list ws))"
    by (simp add: sint_word_add)
  also have "\<dots> = signed_take_bit 63
      (signed_take_bit 63 (sint a) + signed_take_bit 63 (sum_list (map sint ws)))"
    using sint_ge [of a] sint_lt [of a]
    by (simp add: Cons.IH signed_take_bit_int_eq_self)
  also have "\<dots> = signed_take_bit 63 (sint a + sum_list (map sint ws))"
    by (rule signed_take_bit_add)
  finally show ?case by simp
qed

lemma sint_of_nat_64:
  assumes k: "k < 2 ^ 63"
  shows "sint (of_nat k :: 64 word) = int k"
proof -
  have "sint (of_nat k :: 64 word) = sint (word_of_int (int k) :: 64 word)"
    by simp
  also have "\<dots> = signed_take_bit 63 (int k)"
    by (simp only: sint_sbintrunc') simp
  also have "\<dots> = int k"
  proof (rule signed_take_bit_int_eq_self)
    show "- (2 ^ 63) \<le> int k" by simp
    from k have "int k < int (2 ^ 63)" by (simp only: of_nat_less_iff)
    then show "int k < 2 ^ 63" by simp
  qed
  finally show ?thesis .
qed

lemma Count_loop_counts:
  "Count_loop (fileN, directoryN) fl =
     (fileN + of_nat (length (filter isFileEntry fl)),
      directoryN + of_nat (length (filter isDirectoryEntry fl)))"
proof (induction fl arbitrary: fileN directoryN)
  case Nil
  show ?case by simp
next
  case (Cons x fl)
  show ?case
  proof (cases x)
    case None
    then show ?thesis by (simp add: Cons.IH isFileEntry_def isDirectoryEntry_def)
  next
    case (Some f)
    then show ?thesis
      by (simp add: Cons.IH isFileEntry_def isDirectoryEntry_def IsFolder_def)
  qed
qed

lemma kinds_partition:
  "length (filter isFileEntry fl) + length (filter isDirectoryEntry fl) = length (nonNil fl)"
  by (induction fl)
     (auto simp: isFileEntry_def isDirectoryEntry_def nonNil_def split: option.splits)

text \<open>
  C8. \<open>TotalSize\<close> is the sum of the \<open>FileSize\<close> of the entries, a nil entry counting 0,
  which is the sum over the entries that are not nil. The sum is Go's \<open>int64\<close> sum; when
  the sum of the sizes as integers fits \<open>int64\<close>, the value returned is that integer.
\<close>

theorem TotalSize_is_sum:
  "TotalSize fl = sum_list (map sizeOf fl) \<and>
   TotalSize fl = sum_list (map sizeOf (nonNil fl)) \<and>
   (- (2 ^ 63) \<le> sum_list (map (sint \<circ> sizeOf) fl) \<and>
    sum_list (map (sint \<circ> sizeOf) fl) < 2 ^ 63
      \<longrightarrow> sint (TotalSize fl) = sum_list (map (sint \<circ> sizeOf) fl))"
proof -
  have eq: "TotalSize fl = sum_list (map sizeOf fl)"
    by (simp add: TotalSize_def TotalSize_loop_sum)
  have "sint (TotalSize fl) = signed_take_bit 63 (sum_list (map (sint \<circ> sizeOf) fl))"
    by (simp add: eq sint_sum_list)
  then show ?thesis
    using eq by (simp add: sum_list_sizeOf_nonNil signed_take_bit_int_eq_self)
qed

theorem TotalSize_is_sum_witness:
  "sum_list (map (sint \<circ> sizeOf) [Some (zeroFileEntity\<lparr>FileSize := 5\<rparr>), None,
                    Some (zeroFileEntity\<lparr>FileSize := 7\<rparr>)]) = 12 \<and>
   sint (TotalSize [Some (zeroFileEntity\<lparr>FileSize := 5\<rparr>), None,
                    Some (zeroFileEntity\<lparr>FileSize := 7\<rparr>)]) = 12"
  using TotalSize_is_sum
    [of "[Some (zeroFileEntity\<lparr>FileSize := 5\<rparr>), None, Some (zeroFileEntity\<lparr>FileSize := 7\<rparr>)]"]
  by (simp add: sizeOf_def)

text \<open>
  C9. \<open>Count\<close> returns the number of entries that are not nil and not folders, and the
  number of entries whose \<open>FileType\<close> is \<open>folder\<close>; the two add up to the number of entries
  that are not nil. The counters are \<open>int64\<close>; a list shorter than \<open>2 ^ 63\<close>, as every Go
  slice is, gives the counts themselves.
\<close>

theorem Count_partitions:
  "Count fl = (of_nat (length (filter isFileEntry fl)),
               of_nat (length (filter isDirectoryEntry fl))) \<and>
   fst (Count fl) + snd (Count fl) = of_nat (length (nonNil fl)) \<and>
   (length fl < 2 ^ 63 \<longrightarrow>
      sint (fst (Count fl)) = int (length (filter isFileEntry fl)) \<and>
      sint (snd (Count fl)) = int (length (filter isDirectoryEntry fl)) \<and>
      sint (fst (Count fl)) + sint (snd (Count fl)) = int (length (nonNil fl)))"
proof -
  have c: "Count fl = (of_nat (length (filter isFileEntry fl)),
                       of_nat (length (filter isDirectoryEntry fl)))"
    by (simp add: Count_def Count_loop_counts)
  have s: "fst (Count fl) + snd (Count fl) = of_nat (length (nonNil fl))"
    by (simp add: c flip: kinds_partition)
  have e: "sint (fst (Count fl)) = int (length (filter isFileEntry fl)) \<and>
      sint (snd (Count fl)) = int (length (filter isDirectoryEntry fl)) \<and>
      sint (fst (Count fl)) + sint (snd (Count fl)) = int (length (nonNil fl))"
    if "length fl < 2 ^ 63"
  proof -
    have "length (filter isFileEntry fl) \<le> length fl"
      and "length (filter isDirectoryEntry fl) \<le> length fl"
      by simp_all
    with that have b: "length (filter isFileEntry fl) < 2 ^ 63"
      "length (filter isDirectoryEntry fl) < 2 ^ 63"
      by linarith+
    show ?thesis
      using kinds_partition [of fl]
      by (simp add: c sint_of_nat_64 [OF b(1)] sint_of_nat_64 [OF b(2)])
  qed
  show ?thesis using c s e by blast
qed

theorem Count_partitions_witness:
  "length [Some (zeroFileEntity\<lparr>FileType := ''folder''\<rparr>), None,
          Some (zeroFileEntity\<lparr>FileType := ''file''\<rparr>), Some zeroFileEntity] < 2 ^ 63 \<and>
   Count [Some (zeroFileEntity\<lparr>FileType := ''folder''\<rparr>), None,
          Some (zeroFileEntity\<lparr>FileType := ''file''\<rparr>), Some zeroFileEntity] = (2, 1) \<and>
   sint (fst (Count [Some (zeroFileEntity\<lparr>FileType := ''folder''\<rparr>), None,
          Some (zeroFileEntity\<lparr>FileType := ''file''\<rparr>), Some zeroFileEntity])) = 2"
  using Count_partitions
    [of "[Some (zeroFileEntity\<lparr>FileType := ''folder''\<rparr>), None,
          Some (zeroFileEntity\<lparr>FileType := ''file''\<rparr>), Some zeroFileEntity]"]
  by (simp add: isFileEntry_def isDirectoryEntry_def zeroFileEntity_def)

section \<open>Properties of the paginated lister\<close>

lemma answer_simps [simp]:
  "answer (Inl h) = Inl h"
  "answer (Inr (a, w)) = Inr a"
  by (simp_all add: answer_def)

text \<open>The world only records: what \<open>fileListReq\<close> answers and what it leaves in the
  parameter do not depend on it, and no callback is invoked.\<close>

lemma fileListReq_world:
  "fst (fileListReq t param w) = fst (fileListReq t param w') \<and>
   fst (snd (fileListReq t param w)) = fst (snd (fileListReq t param w')) \<and>
   visits (snd (snd (fileListReq t param w))) = visits w"
  by (simp add: fileListReq_def Let_def split: sum.split option.split split del: if_split)

lemma FileList_world:
  "fst (FileList t param w) = fst (FileList t param w') \<and>
   fst (snd (FileList t param w)) = fst (snd (FileList t param w')) \<and>
   visits (snd (snd (FileList t param w))) = visits w"
proof -
  obtain x p1 w1 where a: "fileListReq t param w = (x, p1, w1)"
    by (cases "fileListReq t param w") auto
  obtain y p2 w2 where b: "fileListReq t param w' = (y, p2, w2)"
    by (cases "fileListReq t param w'") auto
  from fileListReq_world [of t param w w'] a b
  have eq: "y = x" "p2 = p1" "visits w1 = visits w" by simp_all
  show ?thesis
    by (cases x) (simp_all add: FileList_def a b eq)
qed

text \<open>\<open>FileList\<close> returns a result and a nil error on every path.\<close>

lemma FileList_total:
  obtains result ip1 w1 where "FileList t param w = ((Some result, None), ip1, w1)"
proof -
  obtain x p1 w1 where a: "fileListReq t param w = (x, p1, w1)"
    by (cases "fileListReq t param w") auto
  show ?thesis
    by (cases x) (auto simp: FileList_def a intro: that)
qed

lemma FileList_other_world:
  assumes "FileList t param w = ((Some result, None), ip1, w1)"
  obtains w2 where "FileList t param w' = ((Some result, None), ip1, w2)"
proof -
  obtain result' ip2 w2 where b: "FileList t param w' = ((Some result', None), ip2, w2)"
    by (rule FileList_total)
  from FileList_world [of t param w w'] assms b
  have "result' = result" "ip2 = ip1" by simp_all
  with b show ?thesis by (auto intro: that)
qed

lemma FileList_visits:
  "FileList t param w = (x, ip1, w1) \<Longrightarrow> visits w1 = visits w"
  using FileList_world [of t param w w] by simp

lemma morePages_world:
  "answer (morePages n t ip res fl w) = answer (morePages n t ip res fl w')"
proof (induction n arbitrary: ip res fl w w')
  case 0
  show ?case by simp
next
  case (Suc n)
  obtain result' ip1 w1
    where a: "FileList t (ip\<lparr>Marker := NextMarker res\<rparr>) w = ((Some result', None), ip1, w1)"
    by (rule FileList_total)
  then obtain w2
    where b: "FileList t (ip\<lparr>Marker := NextMarker res\<rparr>) w' = ((Some result', None), ip1, w2)"
    by (rule FileList_other_world)
  show ?case
    using Suc.IH [of ip1 result' "fl @ res_FileList result'" w1 w2]
    by (simp add: a b)
qed

lemma morePages_visits:
  "morePages n t ip res fl w = Inr (fl', w') \<Longrightarrow> visits w' = visits w"
proof (induction n arbitrary: ip res fl w)
  case 0
  then show ?case by (simp split: if_splits)
next
  case (Suc n)
  obtain result' ip1 w1
    where a: "FileList t (ip\<lparr>Marker := NextMarker res\<rparr>) w = ((Some result', None), ip1, w1)"
    by (rule FileList_total)
  then have v: "visits w1 = visits w" by (rule FileList_visits)
  show ?case
  proof (cases "0 < length (NextMarker res)")
    case True
    with Suc.prems
    have "morePages n t ip1 result' (fl @ res_FileList result') w1 = Inr (fl', w')"
      by (simp add: a)
    then have "visits w' = visits w1" by (rule Suc.IH)
    with v show ?thesis by simp
  next
    case False
    with Suc.prems show ?thesis by simp
  qed
qed

lemma FileListGetAll_world:
  "answer (FileListGetAll n t param w) = answer (FileListGetAll n t param w')"
proof -
  have G: "answer (case FileList t ip w of
              ((Some result, None), internalParam, w) \<Rightarrow>
                (case morePages n t internalParam result ([] @ res_FileList result) w of
                   Inl h \<Rightarrow> Inl h
                 | Inr (fileList, w) \<Rightarrow> Inr ((Some fileList, None), w))
            | ((_, err), internalParam, w) \<Rightarrow> Inr ((None, err), w)) =
           answer (case FileList t ip w' of
              ((Some result, None), internalParam, w) \<Rightarrow>
                (case morePages n t internalParam result ([] @ res_FileList result) w of
                   Inl h \<Rightarrow> Inl h
                 | Inr (fileList, w) \<Rightarrow> Inr ((Some fileList, None), w))
            | ((_, err), internalParam, w) \<Rightarrow> Inr ((None, err), w))" for ip
  proof -
    obtain result ip1 w1 where a: "FileList t ip w = ((Some result, None), ip1, w1)"
      by (rule FileList_total)
    then obtain w2 where b: "FileList t ip w' = ((Some result, None), ip1, w2)"
      by (rule FileList_other_world)
    show ?thesis
      using morePages_world [of n t ip1 result "res_FileList result" w1 w2]
      by (auto simp: a b answer_def split: sum.splits prod.splits)
  qed
  show ?thesis
    unfolding FileListGetAll_def Let_def by (rule G)
qed

text \<open>Whenever \<open>FileListGetAll\<close> returns, it returns a list and a nil error, and it has
  invoked no callback.\<close>

lemma FileListGetAll_result:
  assumes "FileListGetAll n t param w = Inr ((r, e), w')"
  shows "r \<noteq> None \<and> e = None \<and> visits w' = visits w"
proof -
  have G: "(case FileList t ip w of
              ((Some result, None), internalParam, w) \<Rightarrow>
                (case morePages n t internalParam result ([] @ res_FileList result) w of
                   Inl h \<Rightarrow> Inl h
                 | Inr (fileList, w) \<Rightarrow> Inr ((Some fileList, None), w))
            | ((_, err), internalParam, w) \<Rightarrow> Inr ((None, err), w)) = Inr ((r, e), w')
      \<Longrightarrow> r \<noteq> None \<and> e = None \<and> visits w' = visits w" for ip
  proof -
    assume h: "(case FileList t ip w of
              ((Some result, None), internalParam, w) \<Rightarrow>
                (case morePages n t internalParam result ([] @ res_FileList result) w of
                   Inl h \<Rightarrow> Inl h
                 | Inr (fileList, w) \<Rightarrow> Inr ((Some fileList, None), w))
            | ((_, err), internalParam, w) \<Rightarrow> Inr ((None, err), w)) = Inr ((r, e), w')"
    obtain result ip1 w1 where a: "FileList t ip w = ((Some result, None), ip1, w1)"
      by (rule FileList_total)
    then have v: "visits w1 = visits w" by (rule FileList_visits)
    from h obtain fl where m: "morePages n t ip1 result (res_FileList result) w1 = Inr (fl, w')"
      and r: "r = Some fl" "e = None"
      by (auto simp: a split: sum.splits)
    from m have "visits w' = visits w1" by (rule morePages_visits)
    with v r show ?thesis by simp
  qed
  from assms show ?thesis
    unfolding FileListGetAll_def Let_def by (rule G)
qed

text \<open>
  C2. The claim is that \<open>FileList\<close> hands a failure of its request back as an error and
  never as an empty success. Whenever \<open>fileListReq\<close> returns an error, whatever the
  transport and the parameter, \<open>FileList\<close> returns the empty result with a nil error.
\<close>

theorem FileList_swallows_failure:
  assumes "fst (fileListReq t param w) = Inl e"
  shows "fst (FileList t param w) = (Some \<lparr>res_FileList = [], NextMarker = []\<rparr>, None)"
proof -
  obtain x p1 w1 where a: "fileListReq t param w = (x, p1, w1)"
    by (cases "fileListReq t param w") auto
  with assms have "x = Inl e" by simp
  with a show ?thesis by (simp add: FileList_def)
qed

theorem FileList_swallows_failure_witness:
  "fst (fileListReq failingTransport
          \<lparr>OrderBy = [], OrderDirection = [], p_DriveId = ''drive'',
           p_ParentFileId = ''root'', Limit = 0, Marker = []\<rparr> emptyWorld) =
     Inl (NewFailedApiError ''connection refused'') \<and>
   fst (FileList failingTransport
          \<lparr>OrderBy = [], OrderDirection = [], p_DriveId = ''drive'',
           p_ParentFileId = ''root'', Limit = 0, Marker = []\<rparr> emptyWorld) =
     (Some \<lparr>res_FileList = [], NextMarker = []\<rparr>, None)"
proof -
  have f: "fst (fileListReq failingTransport
          \<lparr>OrderBy = [], OrderDirection = [], p_DriveId = ''drive'',
           p_ParentFileId = ''root'', Limit = 0, Marker = []\<rparr> emptyWorld) =
     Inl (NewFailedApiError ''connection refused'')"
    by (simp add: fileListReq_def failingTransport_def Let_def)
  from f FileList_swallows_failure [OF f] show ?thesis by simp
qed

text \<open>
  C1. The claim is that a failure of the first page comes back as that error with no
  entities. On a transport whose request fails in transit, the first page fails and
  \<open>FileListGetAll\<close> returns an empty list that is not nil, with a nil error, for every
  parameter and every fuel.
\<close>

theorem FileListGetAll_first_page_failure:
  "fst (fileListReq failingTransport param w) = Inl (NewFailedApiError ''connection refused'') \<and>
   answer (FileListGetAll n failingTransport param w) = Inr (Some [], None)"
  by (cases n)
     (simp_all add: fileListReq_def FileList_def FileListGetAll_def failingTransport_def Let_def)

text \<open>The other half of the sentence holds: when the second page fails, the entities of
  the first page come back with a nil error.\<close>

lemma FileListGetAll_later_page_failure:
  "answer (FileListGetAll (Suc n) secondPageFails
             \<lparr>OrderBy = [], OrderDirection = [], p_DriveId = driveId,
              p_ParentFileId = [], Limit = 0, Marker = []\<rparr> w) =
     Inr (Some [Some (exampleEntity ''id-B'' ''B'' ''file'')], None)"
  by (cases n)
     (simp_all add: fileListReq_def FileList_def FileListGetAll_def secondPageFails_def Let_def
        createFileEntity_def wireRecord_def exampleEntity_def zeroFileEntity_def
        FileOrderByUpdatedAt_def FileOrderDirectionDesc_def)

section \<open>Properties of the path resolver\<close>

lemma getFileInfoByPath_visits:
  "getFileInfoByPath n t driveId index pathSlice parent w = Inr (res, w') \<Longrightarrow>
     visits w' = visits w"
proof (induction n t driveId index pathSlice parent w arbitrary: res w'
       rule: getFileInfoByPath.induct)
  case (1 n t driveId index pathSlice w)
  then show ?case by (auto split: if_splits)
next
  case (2 n t driveId index pathSlice parentFileInfo w)
  let ?p = "\<lparr>OrderBy = [], OrderDirection = [], p_DriveId = driveId,
             p_ParentFileId = FileId parentFileInfo, Limit = 0, Marker = []\<rparr>"
  show ?case
  proof (cases "length pathSlice \<le> index")
    case True
    with "2.prems" show ?thesis by simp
  next
    case False
    show ?thesis
    proof (cases "FileListGetAll n t ?p w")
      case (Inl h)
      with False "2.prems" show ?thesis by simp
    next
      case (Inr y)
      obtain r e w1 where y: "y = ((r, e), w1)" by (cases y) auto
      from FileListGetAll_result [of n t ?p w r e w1] Inr y
      obtain fileResult where r: "r = Some fileResult" and e: "e = None"
        and v1: "visits w1 = visits w"
        by auto
      show ?thesis
      proof (cases "firstNamed fileResult (pathSlice ! index)")
        case (Inl h)
        with False "2.prems" Inr y r e v1 show ?thesis by (simp split: if_splits)
      next
        case found: (Inr z)
        show ?thesis
        proof (cases z)
          case None
          with False "2.prems" Inr y r e v1 found show ?thesis by (simp split: if_splits)
        next
          case (Some fileEntity)
          show ?thesis
          proof (cases "length fileResult = 0")
            case True
            with False "2.prems" Inr y r e v1 show ?thesis by simp
          next
            case nonempty: False
            from False "2.prems" Inr y r e found Some nonempty
            have "getFileInfoByPath n t driveId (index + 1) pathSlice (Some fileEntity) w1 =
                  Inr (res, w')"
              by simp
            with "2.IH" y r e nonempty False Inr found Some
            have "visits w' = visits w1" by blast
            with v1 show ?thesis by simp
          qed
        qed
      qed
    qed
  qed
qed

lemma resolveSlice_visits:
  "resolveSlice n t driveId pathStr pathSlice w = Inr (res, w') \<Longrightarrow> visits w' = visits w"
  by (auto simp: resolveSlice_def simp del: getFileInfoByPath.simps
           split: sum.splits prod.splits dest: getFileInfoByPath_visits)

lemma FileInfoByPath_visits:
  "FileInfoByPath n t driveId pathStr w = Inr (res, w') \<Longrightarrow> visits w' = visits w"
  by (auto simp: FileInfoByPath_def Let_def
           split: if_splits list.splits dest: resolveSlice_visits)

text \<open>
  C5. For every drive id, transport and fuel, resolving \<open>/\<close> returns the root entity with
  a nil error and leaves the world as it was: no listing request is sent. The root entity has
  \<open>FileId\<close> \<open>root\<close>, \<open>FileType\<close> \<open>folder\<close> and \<open>Path\<close> \<open>/\<close>.
\<close>

theorem FileInfoByPath_root:
  "FileInfoByPath n t driveId ''/'' w = Inr ((Some NewFileEntityForRootDir, None), w) \<and>
   FileId NewFileEntityForRootDir = ''root'' \<and>
   FileType NewFileEntityForRootDir = ''folder'' \<and>
   Path NewFileEntityForRootDir = ''/''"
  by (simp add: FileInfoByPath_def path_IsAbs_def resolveSlice_def NewFileEntityForRootDir_def
      DefaultRootParentFileId_def Let_def)

text \<open>
  C6, as the claim states it: every path that does not start with \<open>/\<close> is rejected. The
  empty path does not start with \<open>/\<close>, and the code replaces it by \<open>/\<close> before the test:
  it resolves to the root entity with a nil error.
\<close>

theorem FileInfoByPath_empty_path:
  "take 1 [] \<noteq> ''/'' \<and>
   FileInfoByPath 0 exampleTransport ''drive'' [] emptyWorld =
     Inr ((Some NewFileEntityForRootDir, None), emptyWorld)"
  by (simp add: FileInfoByPath_def path_IsAbs_def resolveSlice_def NewFileEntityForRootDir_def
      Let_def)

text \<open>
  C6, amended. For every path that is not empty and does not start with \<open>/\<close>, whatever
  the drive id, the transport and the fuel, \<open>FileInfoByPath\<close> returns no entity and the
  failure with the message "pathStr must be an absolute path" (in the source's language),
  and sends no request.
\<close>

theorem FileInfoByPath_relative:
  "pathStr \<noteq> [] \<Longrightarrow> take 1 pathStr \<noteq> ''/'' \<Longrightarrow>
   FileInfoByPath n t driveId pathStr w =
     Inr ((None, Some (NewFailedApiError msgNotAbsolute)), w)"
  by (cases pathStr) (simp_all add: FileInfoByPath_def path_IsAbs_def)

theorem FileInfoByPath_relative_witness:
  "''d/A'' \<noteq> [] \<and> take 1 ''d/A'' \<noteq> ''/'' \<and>
   FileInfoByPath 0 exampleTransport ''drive'' ''d/A'' emptyWorld =
     Inr ((None, Some (NewFailedApiError msgNotAbsolute)), emptyWorld)"
  using FileInfoByPath_relative [of "''d/A''" 0 exampleTransport "''drive''" emptyWorld]
  by simp

section \<open>Properties of the tree walker\<close>

lemmas example_defs =
  FilesDirectoriesRecurseList_def FileInfoByPath_def resolveSlice_def path_IsAbs_def
  path_Clean_def clean_step_def strings_Join_def PathSeparator_def
  FileListGetAll_def FileList_def fileListReq_def createFileEntity_def
  exampleTransport_def exampleListing_def wireRecord_def exampleEntity_def exampleEntityAt_def
  exampleRequest_def emptyWorld_def invoke_def IsFolder_def NewFileEntityForRootDir_def
  zeroFileEntity_def DefaultRootParentFileId_def FileOrderByUpdatedAt_def
  FileOrderDirectionDesc_def NewApiError_def NewFailedApiError_def Let_def

text \<open>
  C7. When the starting path resolves to an entity that is not a folder, the walk invokes
  the callback once, with depth 0, the path given, that entity and a nil error, and returns
  the list of that one entity; the requests sent are those of the resolution and no more.
\<close>

theorem walk_of_a_file:
  "FileInfoByPath n t driveId path w = Inr ((Some e, None), w1) \<Longrightarrow> \<not> IsFolder e \<Longrightarrow>
   FilesDirectoriesRecurseList n t driveId path (Some h) w =
     Inr (Some [Some e], w1\<lparr>visits := visits w1 @ [(0, path, Some e, None)]\<rparr>)"
  by (simp add: FilesDirectoriesRecurseList_def invoke_def)

theorem walk_of_a_file_witness:
  "FileInfoByPath 0 exampleTransport ''drive'' ''/d/B'' emptyWorld =
     Inr ((Some (exampleEntityAt ''id-B'' ''B'' ''file'' ''/d/B''), None),
          \<lparr>requests = [exampleRequest ''drive'' ''root'', exampleRequest ''drive'' ''id-d''],
           visits = []\<rparr>) \<and>
   \<not> IsFolder (exampleEntityAt ''id-B'' ''B'' ''file'' ''/d/B'') \<and>
   FilesDirectoriesRecurseList 0 exampleTransport ''drive'' ''/d/B'' (Some alwaysContinue)
       emptyWorld =
     Inr (Some [Some (exampleEntityAt ''id-B'' ''B'' ''file'' ''/d/B'')],
          \<lparr>requests = [exampleRequest ''drive'' ''root'', exampleRequest ''drive'' ''id-d''],
           visits = [(0, ''/d/B'', Some (exampleEntityAt ''id-B'' ''B'' ''file'' ''/d/B''),
                      None)]\<rparr>)"
proof -
  have r: "FileInfoByPath 0 exampleTransport ''drive'' ''/d/B'' emptyWorld =
     Inr ((Some (exampleEntityAt ''id-B'' ''B'' ''file'' ''/d/B''), None),
          \<lparr>requests = [exampleRequest ''drive'' ''root'', exampleRequest ''drive'' ''id-d''],
           visits = []\<rparr>)"
    by (simp add: example_defs)
  have f: "\<not> IsFolder (exampleEntityAt ''id-B'' ''B'' ''file'' ''/d/B'')"
    by (simp add: example_defs)
  show ?thesis
    using walk_of_a_file [OF r f, of alwaysContinue] r f by simp
qed

text \<open>
  C4. On the drive of the example, for every drive id and with a callback that always
  continues, the walk of \<open>/d\<close> invokes the callback four times, in this order: depth 0 with
  \<open>/d\<close>, depth 1 with \<open>/d/A\<close>, depth 2 with \<open>/d/A/x\<close>, depth 1 with \<open>/d/B\<close>; each path is
  the parent's path, a slash and the name. It sends three listing requests and returns
  \<open>A\<close>, \<open>x\<close>, \<open>B\<close>. Two units of fuel are enough, and more change nothing.
\<close>

theorem walk_example:
  "FilesDirectoriesRecurseList (Suc (Suc n)) exampleTransport driveId ''/d''
       (Some alwaysContinue) emptyWorld =
     Inr (Some [Some (exampleEntityAt ''id-A'' ''A'' ''folder'' ''/d/A''),
                Some (exampleEntityAt ''id-x'' ''x'' ''file'' ''/d/A/x''),
                Some (exampleEntityAt ''id-B'' ''B'' ''file'' ''/d/B'')],
          \<lparr>requests = [exampleRequest driveId ''root'', exampleRequest driveId ''id-d'',
                       exampleRequest driveId ''id-A''],
           visits =
             [(0, ''/d'', Some (exampleEntityAt ''id-d'' ''d'' ''folder'' ''/d''), None),
              (1, ''/d/A'', Some (exampleEntityAt ''id-A'' ''A'' ''folder'' ''/d/A''), None),
              (2, ''/d/A/x'', Some (exampleEntityAt ''id-x'' ''x'' ''file'' ''/d/A/x''), None),
              (1, ''/d/B'', Some (exampleEntityAt ''id-B'' ''B'' ''file'' ''/d/B''), None)]\<rparr>)"
  by (simp add: example_defs alwaysContinue_def)

text \<open>
  C3. The claim is that after the callback has answered false, on its second invocation
  in particular, it is not invoked again and the walk returns nil. On the drive of the
  example with a callback that answers false on its second invocation only, which is the
  folder \<open>/d/A\<close>, the walk goes on: the callback is invoked for \<open>/d/A/x\<close> and for \<open>/d/B\<close>,
  and the walk returns the list of the three entities.
\<close>

theorem stop_on_folder_ignored:
  "stopAtSecond [(0, ''/d'', Some (exampleEntityAt ''id-d'' ''d'' ''folder'' ''/d''), None)]
       (1, ''/d/A'', Some (exampleEntityAt ''id-A'' ''A'' ''folder'' ''/d/A''), None) = False \<and>
   FilesDirectoriesRecurseList (Suc (Suc n)) exampleTransport driveId ''/d''
       (Some stopAtSecond) emptyWorld =
     Inr (Some [Some (exampleEntityAt ''id-A'' ''A'' ''folder'' ''/d/A''),
                Some (exampleEntityAt ''id-x'' ''x'' ''file'' ''/d/A/x''),
                Some (exampleEntityAt ''id-B'' ''B'' ''file'' ''/d/B'')],
          \<lparr>requests = [exampleRequest driveId ''root'', exampleRequest driveId ''id-d'',
                       exampleRequest driveId ''id-A''],
           visits =
             [(0, ''/d'', Some (exampleEntityAt ''id-d'' ''d'' ''folder'' ''/d''), None),
              (1, ''/d/A'', Some (exampleEntityAt ''id-A'' ''A'' ''folder'' ''/d/A''), None),
              (2, ''/d/A/x'', Some (exampleEntityAt ''id-x'' ''x'' ''file'' ''/d/A/x''), None),
              (1, ''/d/B'', Some (exampleEntityAt ''id-B'' ''B'' ''file'' ''/d/B''), None)]\<rparr>)"
  by (simp add: example_defs stopAtSecond_def)

text \<open>A false answer on an entry that is not a folder does stop the walk: with a callback
  that answers false on its third invocation only, which is the file \<open>/d/A/x\<close>, nothing
  is visited after it and the walk returns nil.\<close>

lemma stop_on_file_halts:
  "FilesDirectoriesRecurseList (Suc (Suc n)) exampleTransport driveId ''/d''
       (Some stopAtThird) emptyWorld =
     Inr (None,
          \<lparr>requests = [exampleRequest driveId ''root'', exampleRequest driveId ''id-d'',
                       exampleRequest driveId ''id-A''],
           visits =
             [(0, ''/d'', Some (exampleEntityAt ''id-d'' ''d'' ''folder'' ''/d''), None),
              (1, ''/d/A'', Some (exampleEntityAt ''id-A'' ''A'' ''folder'' ''/d/A''), None),
              (2, ''/d/A/x'', Some (exampleEntityAt ''id-x'' ''x'' ''file'' ''/d/A/x''), None)]\<rparr>)"
  by (simp add: example_defs stopAtThird_def)

subsection \<open>The walk without a callback\<close>

lemma listingOf_run:
  assumes "listingOf n t driveId folder = Inr (Some r, None)"
  obtains w' where
    "FileListGetAll n t \<lparr>OrderBy = [], OrderDirection = [], p_DriveId = driveId,
        p_ParentFileId = FileId folder, Limit = 0, Marker = []\<rparr> w = Inr ((Some r, None), w')"
    and "visits w' = visits w"
proof -
  let ?p = "\<lparr>OrderBy = [], OrderDirection = [], p_DriveId = driveId,
        p_ParentFileId = FileId folder, Limit = 0, Marker = []\<rparr>"
  from assms have "answer (FileListGetAll n t ?p w) = Inr (Some r, None)"
    using FileListGetAll_world [of n t ?p w emptyWorld] by (simp add: listingOf_def)
  then obtain w' where a: "FileListGetAll n t ?p w = Inr ((Some r, None), w')"
    by (auto simp: answer_def split: sum.splits prod.splits)
  from FileListGetAll_result [OF a] have "visits w' = visits w" by simp
  with a show ?thesis by (rule that)
qed

lemma recurseLoop_refines:
  assumes IH: "\<And>folder xs depth fld w. preorderBelow n t driveId folder = Some xs \<Longrightarrow>
      \<exists>w'. recurseList n t driveId folder depth None fld w = Inr (True, fld @ xs, w') \<and>
           visits w' = visits w"
  shows "preorderOfChildren n t driveId folder r = Some xs \<Longrightarrow>
      \<exists>w'. recurseLoop n t driveId folder depth None True r fld w = Inr (True, fld @ xs, w') \<and>
           visits w' = visits w"
proof (induction r arbitrary: xs fld w)
  case Nil
  then show ?case by simp
next
  case (Cons x r)
  from Cons.prems obtain c where x: "x = Some c" by (cases x) simp_all
  let ?c = "c\<lparr>Path := childPath folder c\<rparr>"
  from Cons.prems x obtain below others
    where below: "(if FileType c = ''folder'' then preorderBelow n t driveId ?c else Some []) =
                    Some below"
      and others: "preorderOfChildren n t driveId folder r = Some others"
      and xs: "xs = Some ?c # below @ others"
    by (auto split: option.splits)
  have step: "\<exists>w1. (if IsFolder ?c
          then recurseList n t driveId ?c (depth + 1) None (fld @ [Some ?c]) w
          else Inr (True, fld @ [Some ?c], w)) = Inr (True, (fld @ [Some ?c]) @ below, w1) \<and>
        visits w1 = visits w"
  proof (cases "FileType c = ''folder''")
    case True
    with below have "preorderBelow n t driveId ?c = Some below" by simp
    from IH [OF this, of "depth + 1" "fld @ [Some ?c]" w] True
    show ?thesis by (simp add: IsFolder_def)
  next
    case False
    with below show ?thesis by (simp add: IsFolder_def)
  qed
  then obtain w1 where w1: "(if IsFolder ?c
          then recurseList n t driveId ?c (depth + 1) None (fld @ [Some ?c]) w
          else Inr (True, fld @ [Some ?c], w)) = Inr (True, (fld @ [Some ?c]) @ below, w1)"
      and v1: "visits w1 = visits w"
    by blast
  from Cons.IH [OF others, of "(fld @ [Some ?c]) @ below" w1] obtain w2
    where w2: "recurseLoop n t driveId folder depth None True r ((fld @ [Some ?c]) @ below) w1 =
          Inr (True, ((fld @ [Some ?c]) @ below) @ others, w2)"
      and v2: "visits w2 = visits w1"
    by blast
  have "recurseLoop n t driveId folder depth None True (Some c # r) fld w =
        Inr (True, ((fld @ [Some ?c]) @ below) @ others, w2)"
    using w1 w2
    by (simp add: Let_def invoke_def childPath_def split: if_splits)
  with v1 v2 x xs show ?case by simp
qed

lemma recurseList_refines:
  "preorderBelow n t driveId folder = Some xs \<Longrightarrow>
     \<exists>w'. recurseList n t driveId folder depth None fld w = Inr (True, fld @ xs, w') \<and>
          visits w' = visits w"
proof (induction n arbitrary: folder xs depth fld w)
  case 0
  then show ?case by simp
next
  case (Suc n)
  from Suc.prems obtain r
    where l: "listingOf (Suc n) t driveId folder = Inr (Some r, None)"
      and c: "preorderOfChildren n t driveId folder r = Some xs"
    by (auto split: sum.splits option.splits prod.splits)
  from l obtain w1
    where a: "FileListGetAll (Suc n) t \<lparr>OrderBy = [], OrderDirection = [], p_DriveId = driveId,
        p_ParentFileId = FileId folder, Limit = 0, Marker = []\<rparr> w = Inr ((Some r, None), w1)"
      and v1: "visits w1 = visits w"
    by (rule listingOf_run)
  from recurseLoop_refines [of n t driveId, OF Suc.IH c, of depth fld w1] obtain w2
    where b: "recurseLoop n t driveId folder depth None True r fld w1 = Inr (True, fld @ xs, w2)"
      and v2: "visits w2 = visits w1"
    by blast
  from a b v1 v2 show ?case by simp
qed

text \<open>
  C10. With a nil callback: when the starting path resolves to an entity, and the listings
  below it succeed and end within the fuel, so that the pre-order of the subtree is defined,
  the walk returns, its result is not nil and is that pre-order, complete, and no callback
  invocation is recorded.
\<close>

theorem walk_without_callback:
  assumes res: "FileInfoByPath n t driveId path w = Inr ((Some start, None), w1)"
      and ord: "preorderWalk n t driveId start = Some xs"
  shows "\<exists>w'. FilesDirectoriesRecurseList n t driveId path None w = Inr (Some xs, w') \<and>
              visits w' = visits w"
proof -
  from res have v1: "visits w1 = visits w" by (rule FileInfoByPath_visits)
  show ?thesis
  proof (cases "FileType start = ''folder''")
    case True
    with ord have "preorderBelow n t driveId start = Some xs" by (simp add: preorderWalk_def)
    from recurseList_refines [OF this, of 1 "[]" w1] obtain w2
      where "recurseList n t driveId start 1 None [] w1 = Inr (True, xs, w2)"
        and "visits w2 = visits w1"
      by auto
    with res True v1 show ?thesis
      by (simp add: FilesDirectoriesRecurseList_def invoke_def IsFolder_def)
  next
    case False
    with ord have "xs = [Some start]" by (simp add: preorderWalk_def)
    with res False v1 show ?thesis
      by (simp add: FilesDirectoriesRecurseList_def invoke_def IsFolder_def)
  qed
qed

theorem walk_without_callback_witness:
  "FileInfoByPath (Suc (Suc 0)) exampleTransport ''drive'' ''/d'' emptyWorld =
     Inr ((Some (exampleEntityAt ''id-d'' ''d'' ''folder'' ''/d''), None),
          \<lparr>requests = [exampleRequest ''drive'' ''root''], visits = []\<rparr>) \<and>
   preorderWalk (Suc (Suc 0)) exampleTransport ''drive''
       (exampleEntityAt ''id-d'' ''d'' ''folder'' ''/d'') =
     Some [Some (exampleEntityAt ''id-A'' ''A'' ''folder'' ''/d/A''),
           Some (exampleEntityAt ''id-x'' ''x'' ''file'' ''/d/A/x''),
           Some (exampleEntityAt ''id-B'' ''B'' ''file'' ''/d/B'')] \<and>
   (\<exists>w'. FilesDirectoriesRecurseList (Suc (Suc 0)) exampleTransport ''drive'' ''/d'' None
            emptyWorld =
           Inr (Some [Some (exampleEntityAt ''id-A'' ''A'' ''folder'' ''/d/A''),
                      Some (exampleEntityAt ''id-x'' ''x'' ''file'' ''/d/A/x''),
                      Some (exampleEntityAt ''id-B'' ''B'' ''file'' ''/d/B'')], w') \<and>
         visits w' = [])"
proof -
  have r: "FileInfoByPath (Suc (Suc 0)) exampleTransport ''drive'' ''/d'' emptyWorld =
     Inr ((Some (exampleEntityAt ''id-d'' ''d'' ''folder'' ''/d''), None),
          \<lparr>requests = [exampleRequest ''drive'' ''root''], visits = []\<rparr>)"
    by (simp add: example_defs)
  have s: "preorderWalk (Suc (Suc 0)) exampleTransport ''drive''
       (exampleEntityAt ''id-d'' ''d'' ''folder'' ''/d'') =
     Some [Some (exampleEntityAt ''id-A'' ''A'' ''folder'' ''/d/A''),
           Some (exampleEntityAt ''id-x'' ''x'' ''file'' ''/d/A/x''),
           Some (exampleEntityAt ''id-B'' ''B'' ''file'' ''/d/B'')]"
    by (simp add: preorderWalk_def listingOf_def childPath_def example_defs)
  have "\<exists>w'. FilesDirectoriesRecurseList (Suc (Suc 0)) exampleTransport ''drive'' ''/d'' None
            emptyWorld =
           Inr (Some [Some (exampleEntityAt ''id-A'' ''A'' ''folder'' ''/d/A''),
                      Some (exampleEntityAt ''id-x'' ''x'' ''file'' ''/d/A/x''),
                      Some (exampleEntityAt ''id-B'' ''B'' ''file'' ''/d/B'')], w') \<and>
         visits w' = []"
    using walk_without_callback [OF r s] by (simp add: emptyWorld_def)
  with r s show ?thesis by blast
qed

end
